theory Spec2Isabelle
  imports Main
begin

section \<open>Runtime values, function objects and errors\<close>

text \<open>
  A value of the TypeScript type \<open>T | null\<close>: either \<open>null\<close> or some other value.
  Every non-null value (also \<open>undefined\<close>, \<open>0\<close>, \<open>""\<close>, \<open>false\<close>) is a \<open>Val\<close>.
\<close>

datatype 'v jsval = Null | Val 'v

text \<open>
  What a caller hands to \<open>setRule\<close> as \<open>condition\<close>: a function object, known by its
  reference \<open>'f\<close> (a JavaScript \<open>Map\<close> compares keys by reference), or a value that is
  not a function. The behaviour of the function objects is a table
  \<open>call :: 'f \<Rightarrow> 'a \<Rightarrow> bool\<close>, a parameter of the evaluation: \<open>call p args\<close> is the
  result of \<open>p(args)\<close>. A condition is pure and returns a boolean, as its type
  \<open>Predicate\<close> says.
\<close>

datatype 'f jsarg = Function 'f | NotFunction string

text \<open>
  An exception object. Both \<open>throw\<close> statements of the source build it with
  \<open>new Error(msg)\<close>, whose \<open>name\<close> is \<open>Error\<close>. A method call on \<open>undefined\<close>
  is JavaScript's own \<open>TypeError\<close>.
\<close>

record exn =
  name :: string
  message :: string

definition new_Error :: "string \<Rightarrow> exn" where
  "new_Error msg = \<lparr>name = ''Error'', message = msg\<rparr>"

definition new_TypeError :: "string \<Rightarrow> exn" where
  "new_TypeError msg = \<lparr>name = ''TypeError'', message = msg\<rparr>"

section \<open>The JavaScript Map\<close>

text \<open>
  A \<open>Map\<close> keeps its entries in insertion order. \<open>set\<close> on a key that is present
  overwrites the value in place; on a new key it appends the entry.
\<close>

type_synonym ('k, 'v) Map = "('k \<times> 'v) list"

fun Map_set :: "('k, 'v) Map \<Rightarrow> 'k \<Rightarrow> 'v \<Rightarrow> ('k, 'v) Map" where
  "Map_set [] k v = [(k, v)]"
| "Map_set ((k', v') # es) k v =
     (if k' = k then (k', v) # es else (k', v') # Map_set es k v)"

fun Map_get :: "('k, 'v) Map \<Rightarrow> 'k \<Rightarrow> 'v option" where
  "Map_get [] k = None"
| "Map_get ((k', v') # es) k = (if k' = k then Some v' else Map_get es k)"

fun Map_has :: "('k, 'v) Map \<Rightarrow> 'k \<Rightarrow> bool" where
  "Map_has [] k = False"
| "Map_has ((k', v') # es) k = (if k' = k then True else Map_has es k)"

section \<open>The Rules class\<close>

text \<open>The private fields \<open>_rules\<close> and \<open>_default\<close>; a new object has no rule and \<open>null\<close>.\<close>

record ('f, 'v) Rules =
  rules_field :: "('f, 'v jsval) Map"
  default_field :: "'v jsval"

definition new_Rules :: "('f, 'v) Rules" where
  "new_Rules = \<lparr>rules_field = [], default_field = Null\<rparr>"

text \<open>
  The methods mutate \<open>this\<close> and return it; here they return the outcome (\<open>Inl\<close> the
  exception thrown, \<open>Inr ()\<close> a normal return) with the object as it is afterwards.
  In \<open>setRule\<close> the test \<open>typeof condition !== 'function'\<close> is the case distinction
  on the argument.
\<close>

definition setRule ::
  "('f, 'v) Rules \<Rightarrow> 'f jsarg \<Rightarrow> 'v jsval \<Rightarrow> (exn + unit) \<times> ('f, 'v) Rules" where
  "setRule this condition v =
     (case condition of
        NotFunction s \<Rightarrow> (Inl (new_Error ''Rule condition must be a function.''), this)
      | Function p \<Rightarrow>
          (Inr (), this\<lparr>rules_field := Map_set (rules_field this) p v\<rparr>))"

definition setDefault :: "('f, 'v) Rules \<Rightarrow> 'v jsval \<Rightarrow> (exn + unit) \<times> ('f, 'v) Rules" where
  "setDefault this v = (Inr (), this\<lparr>default_field := v\<rparr>)"

definition getRules :: "('f, 'v) Rules \<Rightarrow> ('f \<times> 'v jsval) list" where
  "getRules this = rules_field this"

definition getDefault :: "('f, 'v) Rules \<Rightarrow> 'v jsval" where
  "getDefault this = default_field this"

section \<open>Evaluation\<close>

text \<open>
  The \<open>for\<close> loop of \<open>baseApplyRules\<close> over the entries. Beside the value of the first
  entry whose condition holds (\<open>None\<close> when the loop runs to its end) it returns the
  conditions it has called, in calling order.
\<close>

fun baseApplyRules_loop ::
  "('f \<Rightarrow> 'a \<Rightarrow> bool) \<Rightarrow> 'a \<Rightarrow> ('f \<times> 'v jsval) list \<Rightarrow> 'v jsval option \<times> 'f list" where
  "baseApplyRules_loop call args [] = (None, [])"
| "baseApplyRules_loop call args ((condition, v) # rest) =
     (if call condition args then (Some v, [condition])
      else (case baseApplyRules_loop call args rest of
              (found, called) \<Rightarrow> (found, condition # called)))"

definition baseApplyRules ::
  "('f \<Rightarrow> 'a \<Rightarrow> bool) \<Rightarrow> 'a \<Rightarrow> ('f, 'v) Rules \<Rightarrow> (exn + 'v jsval) \<times> 'f list" where
  "baseApplyRules call args rules =
     (case baseApplyRules_loop call args (getRules rules) of
        (Some v, called) \<Rightarrow> (Inr v, called)
      | (None, called) \<Rightarrow>
          (let defaultValue = getDefault rules in
           if defaultValue \<noteq> Null then (Inr defaultValue, called)
           else (Inl (new_Error
                  ''Rules set is missing a default and no conditions were met.''),
                 called)))"

section \<open>Memoization\<close>

text \<open>
  \<open>Rules\<close> objects live in a heap and are known by their reference \<open>'r\<close>. The cache
  of \<open>memoize\<close> maps such a reference to a \<open>Map\<close> from the serialized arguments to the
  result. \<open>JSON.stringify\<close> is the parameter \<open>stringify\<close>. The memoized function
  returns its outcome, the cache afterwards and the conditions called. The pair
  \<open>innerCache.has(key)\<close>, \<open>innerCache.get(key)\<close> is one lookup, \<open>None\<close> for an absent key
  (see \<open>Map_has_get\<close> below).
\<close>

type_synonym ('r, 'v) cache = "('r, (string, 'v jsval) Map) Map"

definition applyRules ::
  "('f \<Rightarrow> 'a \<Rightarrow> bool) \<Rightarrow> ('a \<Rightarrow> string) \<Rightarrow> ('r \<Rightarrow> ('f, 'v) Rules) \<Rightarrow> ('r, 'v) cache \<Rightarrow>
     'a \<Rightarrow> 'r \<Rightarrow> (exn + 'v jsval) \<times> ('r, 'v) cache \<times> 'f list" where
  "applyRules call stringify heap cache args rules =
     (let cache1 = (if \<not> Map_has cache rules then Map_set cache rules [] else cache) in
      case Map_get cache1 rules of
        None \<Rightarrow> (Inl (new_TypeError ''Cannot read properties of undefined''), cache1, [])
      | Some innerCache \<Rightarrow>
          (let key = stringify args in
           case Map_get innerCache key of
             Some v \<Rightarrow> (Inr v, cache1, [])
           | None \<Rightarrow>
               (case baseApplyRules call args (heap rules) of
                  (Inl e, called) \<Rightarrow> (Inl e, cache1, called)
                | (Inr result, called) \<Rightarrow>
                    (Inr result, Map_set cache1 rules (Map_set innerCache key result),
                     called))))"

text \<open>The exception an outcome carries, if any.\<close>

fun thrown :: "exn + 'b \<Rightarrow> exn option" where
  "thrown (Inl e) = Some e"
| "thrown (Inr y) = None"

section \<open>Callers: chaining and later mutation\<close>

text \<open>
  \<open>a.setRule(..).setRule(..)\<close>: the next method runs on the object the previous one
  returned; an exception ends the chain.
\<close>

definition chain ::
  "(exn + unit) \<times> ('f, 'v) Rules \<Rightarrow> (('f, 'v) Rules \<Rightarrow> (exn + unit) \<times> ('f, 'v) Rules) \<Rightarrow>
     (exn + unit) \<times> ('f, 'v) Rules" where
  "chain r m = (case r of (Inl e, this) \<Rightarrow> (Inl e, this) | (Inr u, this) \<Rightarrow> m this)"

text \<open>
  What a program does with the rule sets between two calls: it calls the memoized
  \<open>applyRules\<close> (whose exception, if any, it catches), or a mutator on a rule set.
  A mutator changes the object in the heap; the cache belongs to the closure of
  \<open>memoize\<close>, and only \<open>applyRules\<close> reaches it.
\<close>

datatype ('f, 'v) mutation = SetRule "'f jsarg" "'v jsval" | SetDefault "'v jsval"

fun apply_mutation :: "('f, 'v) Rules \<Rightarrow> ('f, 'v) mutation \<Rightarrow> ('f, 'v) Rules" where
  "apply_mutation this (SetRule c v) = snd (setRule this c v)"
| "apply_mutation this (SetDefault v) = snd (setDefault this v)"

datatype ('a, 'r, 'f, 'v) action = Apply 'a 'r | Mutate 'r "('f, 'v) mutation"

fun run ::
  "('f \<Rightarrow> 'a \<Rightarrow> bool) \<Rightarrow> ('a \<Rightarrow> string) \<Rightarrow> ('r \<Rightarrow> ('f, 'v) Rules) \<times> ('r, 'v) cache \<Rightarrow>
     ('a, 'r, 'f, 'v) action list \<Rightarrow> ('r \<Rightarrow> ('f, 'v) Rules) \<times> ('r, 'v) cache" where
  "run call stringify (heap, cache) [] = (heap, cache)"
| "run call stringify (heap, cache) (Apply args r # acts) =
     run call stringify (heap, fst (snd (applyRules call stringify heap cache args r))) acts"
| "run call stringify (heap, cache) (Mutate r m # acts) =
     run call stringify (heap(r := apply_mutation (heap r) m), cache) acts"

text \<open>The result the cache holds for a rule set and a key, if any.\<close>

definition cached :: "('r, 'v) cache \<Rightarrow> 'r \<Rightarrow> string \<Rightarrow> 'v jsval option" where
  "cached cache r key =
     (case Map_get cache r of None \<Rightarrow> None | Some inner \<Rightarrow> Map_get inner key)"

section \<open>The rule sets of the tests\<close>

text \<open>
  The tests of the edge cases use contexts \<open>{x: number}\<close>, here the integer \<open>x\<close>, and
  the conditions \<open>({x}) => x > 10\<close> and \<open>({x}) => x > 0\<close>.
\<close>

datatype x_pred = GreaterThan10 | Positive

fun call_x :: "x_pred \<Rightarrow> int \<Rightarrow> bool" where
  "call_x GreaterThan10 x = (x > 10)"
| "call_x Positive x = (x > 0)"

text \<open>\<open>JSON.stringify\<close> on \<open>{x: n}\<close> for an integer \<open>n\<close>.\<close>

fun digits :: "nat \<Rightarrow> string" where
  "digits n =
     (if n < 10 then [char_of (48 + n)] else digits (n div 10) @ [char_of (48 + n mod 10)])"

declare digits.simps [simp del]

definition stringify_x :: "int \<Rightarrow> string" where
  "stringify_x x =
     ''{'' @ [CHR 0x22] @ ''x'' @ [CHR 0x22] @ '':'' @
     (if x < 0 then ''-'' @ digits (nat (- x)) else digits (nat x)) @ ''}''"

definition largeRules :: "(x_pred, string) Rules" where
  "largeRules = snd (setRule new_Rules (Function GreaterThan10) (Val ''large''))"

definition positiveRules :: "(x_pred, string) Rules" where
  "positiveRules =
     snd (chain (setRule new_Rules (Function Positive) (Val ''positive''))
            (\<lambda>this. setDefault this (Val ''not positive'')))"

text \<open>The same rule set with \<open>setDefault(null)\<close>, which \<open>T | null\<close> admits.\<close>

definition nullDefaultRules :: "(x_pred, string) Rules" where
  "nullDefaultRules =
     snd (chain (setRule new_Rules (Function Positive) (Val ''positive''))
            (\<lambda>this. setDefault this Null))"

text \<open>The user roles of \<open>tests/fixtures.ts\<close>; the context \<open>{user}\<close> is the user.\<close>

record User =
  username :: string
  postCount :: int
  isModerator :: bool

datatype role_pred = IsAdmin | IsModerator | IsPowerUser

fun call_role :: "role_pred \<Rightarrow> User \<Rightarrow> bool" where
  "call_role IsAdmin user = (username user = ''admin'')"
| "call_role IsModerator user = isModerator user"
| "call_role IsPowerUser user = (postCount user > 100)"

definition userRoleRules :: "(role_pred, string) Rules" where
  "userRoleRules =
     snd (chain (chain (chain
            (setRule new_Rules (Function IsAdmin) (Val ''Administrator''))
            (\<lambda>this. setRule this (Function IsModerator) (Val ''Moderator'')))
            (\<lambda>this. setRule this (Function IsPowerUser) (Val ''Power User'')))
            (\<lambda>this. setDefault this (Val ''Member'')))"

definition adminUser :: User where
  "adminUser = \<lparr>username = ''admin'', postCount = 999, isModerator = True\<rparr>"

definition moderatorUser :: User where
  "moderatorUser = \<lparr>username = ''mod'', postCount = 50, isModerator = True\<rparr>"

text \<open>One heap cell holding a rule set, for the calls of the memoized function.\<close>

definition heap_of :: "('f, 'v) Rules \<Rightarrow> nat \<Rightarrow> ('f, 'v) Rules" where
  "heap_of rules r = (if r = 0 then rules else new_Rules)"

section \<open>Facts about the Map\<close>

lemma Map_has_get: "Map_has m k \<longleftrightarrow> Map_get m k \<noteq> None"
  by (induction m) (auto split: if_splits)

lemma Map_get_set_same: "Map_get (Map_set m k v) k = Some v"
  by (induction m) auto

lemma Map_get_set_other: "k' \<noteq> k \<Longrightarrow> Map_get (Map_set m k v) k' = Map_get m k'"
  by (induction m) auto

lemma Map_set_present_keys: "Map_has m k \<Longrightarrow> map fst (Map_set m k v) = map fst m"
  by (induction m) auto

lemma Map_set_absent: "\<not> Map_has m k \<Longrightarrow> Map_set m k v = m @ [(k, v)]"
  by (induction m) auto

section \<open>Facts about the loop\<close>

lemma loop_no_match:
  "\<forall>(p, v) \<in> set es. \<not> call p args \<Longrightarrow>
     baseApplyRules_loop call args es = (None, map fst es)"
  by (induction es) auto

lemma loop_first_match:
  "\<forall>(q, w) \<in> set pre. \<not> call q args \<Longrightarrow> call p args \<Longrightarrow>
     baseApplyRules_loop call args (pre @ (p, v) # post) = (Some v, map fst pre @ [p])"
  by (induction pre) auto

lemma loop_find:
  "fst (baseApplyRules_loop call args es) =
     (case find (\<lambda>p. call p args) (map fst es) of
        None \<Rightarrow> None
      | Some p \<Rightarrow> Map_get es p)"
proof (induction es)
  case Nil
  show ?case by simp
next
  case (Cons e es)
  obtain q w where e: "e = (q, w)" by (cases e)
  show ?case
  proof (cases "call q args")
    case True
    with e show ?thesis by simp
  next
    case False
    have "p \<noteq> q" if "find (\<lambda>p. call p args) (map fst es) = Some p" for p
      using that False by (auto simp: find_Some_iff)
    with e Cons False show ?thesis
      by (auto split: prod.splits option.splits)
  qed
qed

section \<open>Facts about the memoized function\<close>

lemma baseApplyRules_throws:
  "fst (baseApplyRules call args R) = Inl e \<Longrightarrow>
     e = new_Error ''Rules set is missing a default and no conditions were met.''"
  by (auto simp: baseApplyRules_def Let_def split: prod.splits option.splits if_splits)

lemma applyRules_unfold:
  "applyRules call stringify heap cache args r =
     (let cache1 = (if Map_has cache r then cache else Map_set cache r []);
          inner = (case Map_get cache r of None \<Rightarrow> [] | Some m \<Rightarrow> m);
          key = stringify args
      in case Map_get inner key of
           Some v \<Rightarrow> (Inr v, cache1, [])
         | None \<Rightarrow>
             (case baseApplyRules call args (heap r) of
                (Inl e, called) \<Rightarrow> (Inl e, cache1, called)
              | (Inr result, called) \<Rightarrow>
                  (Inr result, Map_set cache1 r (Map_set inner key result), called)))"
proof (cases "Map_has cache r")
  case True
  then obtain m where "Map_get cache r = Some m" by (auto simp: Map_has_get)
  with True show ?thesis by (simp add: applyRules_def)
next
  case False
  then have "Map_get cache r = None" by (simp add: Map_has_get)
  with False show ?thesis by (simp add: applyRules_def Map_get_set_same)
qed

lemma applyRules_hit:
  "Map_get cache r = Some inner \<Longrightarrow> Map_get inner (stringify args) = Some v \<Longrightarrow>
     applyRules call stringify heap cache args r = (Inr v, cache, [])"
  by (simp add: applyRules_unfold Map_has_get)

lemma applyRules_returns_cached:
  assumes "applyRules call stringify heap cache c r = (Inr v, cache', called)"
  shows "\<exists>inner. Map_get cache' r = Some inner \<and> Map_get inner (stringify c) = Some v"
  using assms
  by (auto simp: applyRules_unfold Let_def Map_get_set_same Map_has_get
      split: option.splits prod.splits sum.splits if_splits)

lemma applyRules_throws_uncached:
  assumes "applyRules call stringify heap cache c r = (Inl e, cache', called)"
  shows "(\<exists>inner. Map_get cache' r = Some inner \<and> Map_get inner (stringify c) = None) \<and>
         baseApplyRules call c (heap r) = (Inl e, called)"
  using assms
  by (auto simp: applyRules_unfold Let_def Map_get_set_same Map_has_get
      split: option.splits prod.splits sum.splits if_splits)

lemma cached_hit:
  "cached cache r (stringify args) = Some v \<Longrightarrow>
     applyRules call stringify heap cache args r = (Inr v, cache, [])"
  by (auto simp: cached_def applyRules_hit split: option.splits)

lemma applyRules_caches:
  assumes "applyRules call stringify heap cache c r = (Inr v, cache', called)"
  shows "cached cache' r (stringify c) = Some v"
  using applyRules_returns_cached [OF assms] by (auto simp: cached_def)

lemma applyRules_keeps_entry:
  assumes "cached cache r key = Some v"
  shows "cached (fst (snd (applyRules call stringify heap cache args r2))) r key = Some v"
proof (cases "r2 = r")
  case True
  from assms obtain inner where i: "Map_get cache r = Some inner" "Map_get inner key = Some v"
    by (auto simp: cached_def split: option.splits)
  then have h: "Map_has cache r" by (simp add: Map_has_get)
  show ?thesis
  proof (cases "stringify args = key")
    case True
    with i h \<open>r2 = r\<close> show ?thesis
      by (simp add: applyRules_unfold cached_def)
  next
    case False
    with i h \<open>r2 = r\<close> show ?thesis
      by (auto simp: applyRules_unfold cached_def Let_def Map_get_set_same Map_get_set_other
          split: option.splits prod.splits sum.splits)
  qed
next
  case False
  with assms show ?thesis
    by (auto simp: applyRules_unfold cached_def Let_def Map_get_set_other
        split: option.splits prod.splits sum.splits)
qed

lemma run_keeps_entry:
  "cached cache r key = Some v \<Longrightarrow>
     cached (snd (run call stringify (heap, cache) acts)) r key = Some v"
proof (induction acts arbitrary: heap cache)
  case Nil
  then show ?case by simp
next
  case (Cons a acts)
  then show ?case
    by (cases a) (simp_all add: applyRules_keeps_entry)
qed

text \<open>The definitions a concrete run unfolds.\<close>

lemmas fixture_defs =
  largeRules_def positiveRules_def nullDefaultRules_def userRoleRules_def
  chain_def setRule_def setDefault_def new_Rules_def getRules_def getDefault_def
  adminUser_def moderatorUser_def heap_of_def

section \<open>First match\<close>

text \<open>
  C1. When some condition of the rule set holds for the context, \<open>baseApplyRules\<close>
  returns the value paired with the first such condition in insertion order, and the
  conditions it has called are those up to and including that one: none of the entries
  after it is called.
\<close>

theorem first_match_wins:
  assumes "\<exists>(p, v) \<in> set (getRules R). call p args"
  shows "\<exists>pre p v post.
           getRules R = pre @ (p, v) # post \<and>
           (\<forall>(q, w) \<in> set pre. \<not> call q args) \<and> call p args \<and>
           baseApplyRules call args R = (Inr v, map fst pre @ [p])"
proof -
  from assms have "\<exists>e \<in> set (getRules R). call (fst e) args"
    by (simp add: case_prod_beta)
  then obtain pre e post where
    split: "getRules R = pre @ e # post" and hit: "call (fst e) args"
    and miss: "\<forall>d \<in> set pre. \<not> call (fst d) args"
    by (auto simp: split_list_first_prop_iff)
  obtain p v where e: "e = (p, v)" by (cases e)
  from miss have miss': "\<forall>(q, w) \<in> set pre. \<not> call q args" by auto
  from hit e have hit': "call p args" by simp
  have "baseApplyRules_loop call args (getRules R) = (Some v, map fst pre @ [p])"
    unfolding split e using miss' hit' by (rule loop_first_match)
  then have "baseApplyRules call args R = (Inr v, map fst pre @ [p])"
    by (simp add: baseApplyRules_def)
  with split e miss' hit' show ?thesis by blast
qed

theorem first_match_wins_witness:
  "getRules userRoleRules =
     [(IsAdmin, Val ''Administrator''), (IsModerator, Val ''Moderator''),
      (IsPowerUser, Val ''Power User'')] \<and>
   call_role IsAdmin adminUser \<and> call_role IsModerator adminUser \<and>
   call_role IsPowerUser adminUser \<and>
   (\<exists>pre p v post.
      getRules userRoleRules = pre @ (p, v) # post \<and>
      (\<forall>(q, w) \<in> set pre. \<not> call_role q adminUser) \<and> call_role p adminUser \<and>
      baseApplyRules call_role adminUser userRoleRules = (Inr v, map fst pre @ [p])) \<and>
   baseApplyRules call_role adminUser userRoleRules = (Inr (Val ''Administrator''), [IsAdmin])"
proof -
  have h: "\<exists>(p, v) \<in> set (getRules userRoleRules). call_role p adminUser"
    by (simp add: fixture_defs)
  have c: "\<exists>pre p v post.
      getRules userRoleRules = pre @ (p, v) # post \<and>
      (\<forall>(q, w) \<in> set pre. \<not> call_role q adminUser) \<and> call_role p adminUser \<and>
      baseApplyRules call_role adminUser userRoleRules = (Inr v, map fst pre @ [p])"
    using h by (rule first_match_wins)
  have e: "baseApplyRules call_role adminUser userRoleRules =
      (Inr (Val ''Administrator''), [IsAdmin])"
    by (simp add: fixture_defs baseApplyRules_def)
  from c e show ?thesis by (simp add: fixture_defs)
qed

section \<open>No match\<close>

text \<open>
  C6. When the default of the rule set is unset (it reads \<open>null\<close>) and no condition
  holds for the context, \<open>baseApplyRules\<close> throws the no-match error, after calling
  every condition.
\<close>

theorem no_match_no_default_fails:
  assumes "getDefault R = Null" and "\<forall>(p, v) \<in> set (getRules R). \<not> call p args"
  shows "baseApplyRules call args R =
           (Inl (new_Error ''Rules set is missing a default and no conditions were met.''),
            map fst (getRules R))"
  using assms by (simp add: baseApplyRules_def loop_no_match)

theorem no_match_no_default_fails_witness:
  "getDefault largeRules = Null \<and>
   getRules largeRules = [(GreaterThan10, Val ''large'')] \<and>
   \<not> call_x GreaterThan10 5 \<and>
   baseApplyRules call_x 5 largeRules =
     (Inl (new_Error ''Rules set is missing a default and no conditions were met.''),
      [GreaterThan10])"
proof -
  have d: "getDefault largeRules = Null"
    by (simp add: fixture_defs)
  have n: "\<forall>(p, v) \<in> set (getRules largeRules). \<not> call_x p 5"
    by (simp add: fixture_defs)
  from no_match_no_default_fails [where R = largeRules and call = call_x
      and args = 5, OF d n]
  show ?thesis by (simp add: fixture_defs)
qed

text \<open>
  C7, as stated: a rule set with a default configured returns the default when no
  condition holds. It fails for a default configured as \<open>null\<close>: the rule set built by
  \<open>setRule(x > 0, 'positive').setDefault(null)\<close> throws on the context \<open>x = -1\<close>.
\<close>

theorem no_match_null_default_counterexample:
  "nullDefaultRules =
     snd (setDefault (snd (setRule new_Rules (Function Positive) (Val ''positive''))) Null) \<and>
   \<not> call_x Positive (- 1) \<and>
   baseApplyRules call_x (- 1) nullDefaultRules =
     (Inl (new_Error ''Rules set is missing a default and no conditions were met.''),
      [Positive])"
  by (simp add: fixture_defs baseApplyRules_def)

text \<open>
  C7, amended. When the default of the rule set is not \<open>null\<close> and no condition holds
  for the context, \<open>baseApplyRules\<close> returns the default, after calling every condition.
\<close>

theorem no_match_returns_nonnull_default:
  assumes "getDefault R \<noteq> Null" and "\<forall>(p, v) \<in> set (getRules R). \<not> call p args"
  shows "baseApplyRules call args R = (Inr (getDefault R), map fst (getRules R))"
  using assms by (simp add: baseApplyRules_def loop_no_match)

theorem no_match_returns_nonnull_default_witness:
  "getDefault positiveRules = Val ''not positive'' \<and>
   getRules positiveRules = [(Positive, Val ''positive'')] \<and>
   \<not> call_x Positive (- 1) \<and>
   baseApplyRules call_x (- 1) positiveRules = (Inr (Val ''not positive''), [Positive])"
proof -
  have d: "getDefault positiveRules \<noteq> Null"
    by (simp add: fixture_defs)
  have n: "\<forall>(p, v) \<in> set (getRules positiveRules). \<not> call_x p (- 1)"
    by (simp add: fixture_defs)
  from no_match_returns_nonnull_default [where R = positiveRules and call = call_x
      and args = "- 1", OF d n]
  show ?thesis by (simp add: fixture_defs)
qed

section \<open>The default and its sentinel\<close>

text \<open>
  C2, as stated: after \<open>setDefault(v)\<close>, for any \<open>v\<close> and \<open>null\<close> too, a context that
  matches no condition gets \<open>v\<close>, and a set default is told apart from an unset one.
  It fails for \<open>v = null\<close>: \<open>setDefault(null)\<close> leaves the object as it was without a
  default, and the evaluation throws.
\<close>

theorem setDefault_null_counterexample:
  "snd (setDefault largeRules Null) = largeRules \<and>
   getDefault (snd (setDefault largeRules Null)) = getDefault largeRules \<and>
   \<not> call_x GreaterThan10 5 \<and>
   baseApplyRules call_x 5 (snd (setDefault largeRules Null)) =
     (Inl (new_Error ''Rules set is missing a default and no conditions were met.''),
      [GreaterThan10])"
  by (simp add: fixture_defs baseApplyRules_def)

text \<open>
  C2, amended. After \<open>setDefault(v)\<close> with \<open>v\<close> other than \<open>null\<close>, a context that matches
  no condition gets \<open>v\<close>, and \<open>getDefault\<close> returns \<open>v\<close>. \<open>null\<close> is the sentinel of an
  unset default: after \<open>setDefault(null)\<close> the accessor reads \<open>null\<close> and such an
  evaluation throws the no-match error.
\<close>

theorem setDefault_null_is_sentinel:
  assumes "\<forall>(p, w) \<in> set (getRules R). \<not> call p args"
  shows "(v \<noteq> Null \<longrightarrow>
            fst (baseApplyRules call args (snd (setDefault R v))) = Inr v \<and>
            getDefault (snd (setDefault R v)) = v) \<and>
         fst (baseApplyRules call args (snd (setDefault R Null))) =
           Inl (new_Error ''Rules set is missing a default and no conditions were met.'') \<and>
         getDefault (snd (setDefault R Null)) = Null"
  using assms
  by (simp add: baseApplyRules_def loop_no_match setDefault_def getRules_def getDefault_def)

theorem setDefault_null_is_sentinel_witness:
  "getRules largeRules = [(GreaterThan10, Val ''large'')] \<and>
   \<not> call_x GreaterThan10 5 \<and> Val ''small'' \<noteq> (Null :: string jsval) \<and>
   fst (baseApplyRules call_x 5 (snd (setDefault largeRules (Val ''small'')))) =
     Inr (Val ''small'') \<and>
   getDefault (snd (setDefault largeRules (Val ''small''))) = Val ''small'' \<and>
   fst (baseApplyRules call_x 5 (snd (setDefault largeRules Null))) =
     Inl (new_Error ''Rules set is missing a default and no conditions were met.'')"
proof -
  have n: "\<forall>(p, w) \<in> set (getRules largeRules). \<not> call_x p 5"
    by (simp add: fixture_defs)
  from setDefault_null_is_sentinel [where R = largeRules and call = call_x and args = 5
      and v = "Val ''small''", OF n]
  show ?thesis by (simp add: fixture_defs)
qed

section \<open>The two errors\<close>

text \<open>
  C3, as stated: the error of \<open>setRule\<close> on a condition that is not a function and the
  error of an evaluation without match and default are of distinct kinds. They are not:
  both are plain \<open>Error\<close> objects, with the same \<open>name\<close>.
\<close>

theorem errors_same_kind_counterexample:
  "map_option name (thrown (fst (setRule (new_Rules :: (x_pred, string) Rules)
      (NotFunction ''not-a-function'') (Val ''invalid'')))) = Some ''Error'' \<and>
   map_option name (thrown (fst (applyRules call_x stringify_x (heap_of largeRules) []
      5 (0::nat)))) = Some ''Error''"
  by (simp add: fixture_defs baseApplyRules_def applyRules_def new_Error_def)

text \<open>
  C3, amended. Every exception of \<open>setRule\<close> and every exception of the memoized
  \<open>applyRules\<close> is a plain \<open>Error\<close>; the first carries the message
  \<open>Rule condition must be a function.\<close> and the second the message
  \<open>Rules set is missing a default and no conditions were met.\<close>, so that a caller tells
  them apart by the message alone.
\<close>

theorem errors_differ_only_in_message:
  assumes "fst (setRule this condition v) = Inl e1"
    and "fst (applyRules call stringify heap cache args r) = Inl e2"
  shows "name e1 = ''Error'' \<and> name e2 = ''Error'' \<and>
         message e1 = ''Rule condition must be a function.'' \<and>
         message e2 = ''Rules set is missing a default and no conditions were met.''"
proof -
  from assms(1) have "e1 = new_Error ''Rule condition must be a function.''"
    by (auto simp: setRule_def split: jsarg.splits)
  moreover
  obtain cache' called where
    "applyRules call stringify heap cache args r = (Inl e2, cache', called)"
    using assms(2) by (cases "applyRules call stringify heap cache args r") auto
  then have "fst (baseApplyRules call args (heap r)) = Inl e2"
    using applyRules_throws_uncached by fastforce
  then have "e2 = new_Error ''Rules set is missing a default and no conditions were met.''"
    by (rule baseApplyRules_throws)
  ultimately show ?thesis by (simp add: new_Error_def)
qed

theorem errors_differ_only_in_message_witness:
  "fst (setRule (new_Rules :: (x_pred, string) Rules) (NotFunction ''not-a-function'')
      (Val ''invalid'')) = Inl (new_Error ''Rule condition must be a function.'') \<and>
   fst (applyRules call_x stringify_x (heap_of largeRules) [] 5 (0::nat)) =
     Inl (new_Error ''Rules set is missing a default and no conditions were met.'') \<and>
   name (new_Error ''Rule condition must be a function.'') =
     name (new_Error ''Rules set is missing a default and no conditions were met.'')"
proof -
  have a: "fst (setRule (new_Rules :: (x_pred, string) Rules)
      (NotFunction ''not-a-function'') (Val ''invalid'')) =
      Inl (new_Error ''Rule condition must be a function.'')"
    by (simp add: fixture_defs)
  have b: "fst (applyRules call_x stringify_x (heap_of largeRules) [] 5 (0::nat)) =
     Inl (new_Error ''Rules set is missing a default and no conditions were met.'')"
    by (simp add: fixture_defs baseApplyRules_def applyRules_def)
  from a b errors_differ_only_in_message [OF a b]
  show ?thesis by simp
qed

text \<open>
  C8. \<open>setRule\<close> on a condition that is not a function throws the invalid-rule error
  and leaves the object as it was: entries, their order and the default.
\<close>

theorem setRule_rejects_non_function:
  "setRule this (NotFunction s) v =
     (Inl (new_Error ''Rule condition must be a function.''), this)"
  by (simp add: setRule_def)

section \<open>Setting a rule again\<close>

text \<open>
  C9. \<open>setRule\<close> on a condition that is already a key of the rule set returns normally,
  keeps the keys and their order (so the length too), stores the new value under that
  key, leaves the other values and the default alone; and an evaluation whose first
  holding condition is that key returns the new value.
\<close>

theorem setRule_again_replaces_in_place:
  assumes "Map_has (getRules R) p"
  shows "fst (setRule R (Function p) v') = Inr () \<and>
         map fst (getRules (snd (setRule R (Function p) v'))) = map fst (getRules R) \<and>
         length (getRules (snd (setRule R (Function p) v'))) = length (getRules R) \<and>
         Map_get (getRules (snd (setRule R (Function p) v'))) p = Some v' \<and>
         (\<forall>q. q \<noteq> p \<longrightarrow>
            Map_get (getRules (snd (setRule R (Function p) v'))) q = Map_get (getRules R) q) \<and>
         getDefault (snd (setRule R (Function p) v')) = getDefault R \<and>
         (\<forall>args. find (\<lambda>q. call q args) (map fst (getRules R)) = Some p \<longrightarrow>
            fst (baseApplyRules call args (snd (setRule R (Function p) v'))) = Inr v')"
proof -
  let ?R' = "snd (setRule R (Function p) v')"
  have g: "getRules ?R' = Map_set (getRules R) p v'"
    by (simp add: setRule_def getRules_def)
  have keys: "map fst (getRules ?R') = map fst (getRules R)"
    using assms by (simp add: g Map_set_present_keys)
  then have len: "length (getRules ?R') = length (getRules R)"
    by (metis length_map)
  have new: "Map_get (getRules ?R') p = Some v'"
    by (simp add: g Map_get_set_same)
  have others: "\<forall>q. q \<noteq> p \<longrightarrow> Map_get (getRules ?R') q = Map_get (getRules R) q"
    by (simp add: g Map_get_set_other)
  have dflt: "getDefault ?R' = getDefault R"
    by (simp add: setRule_def getDefault_def)
  have ev: "fst (baseApplyRules call args ?R') = Inr v'"
    if "find (\<lambda>q. call q args) (map fst (getRules R)) = Some p" for args
  proof -
    have "fst (baseApplyRules_loop call args (getRules ?R')) = Some v'"
      using that by (simp add: loop_find keys new)
    then show ?thesis
      by (cases "baseApplyRules_loop call args (getRules ?R')")
        (simp add: baseApplyRules_def)
  qed
  have ok: "fst (setRule R (Function p) v') = Inr ()"
    by (simp add: setRule_def)
  from ok keys len new others dflt ev show ?thesis by blast
qed

theorem setRule_again_replaces_in_place_witness:
  "Map_has (getRules userRoleRules) IsModerator \<and>
   getRules (snd (setRule userRoleRules (Function IsModerator) (Val ''Mod''))) =
     [(IsAdmin, Val ''Administrator''), (IsModerator, Val ''Mod''),
      (IsPowerUser, Val ''Power User'')] \<and>
   map fst (getRules (snd (setRule userRoleRules (Function IsModerator) (Val ''Mod'')))) =
     map fst (getRules userRoleRules) \<and>
   IsAdmin \<noteq> IsModerator \<and>
   Map_get (getRules (snd (setRule userRoleRules (Function IsModerator) (Val ''Mod''))))
     IsAdmin = Map_get (getRules userRoleRules) IsAdmin \<and>
   find (\<lambda>q. call_role q moderatorUser) (map fst (getRules userRoleRules)) =
     Some IsModerator \<and>
   fst (baseApplyRules call_role moderatorUser
     (snd (setRule userRoleRules (Function IsModerator) (Val ''Mod'')))) = Inr (Val ''Mod'')"
proof -
  have h: "Map_has (getRules userRoleRules) IsModerator"
    by (simp add: fixture_defs)
  have f: "find (\<lambda>q. call_role q moderatorUser) (map fst (getRules userRoleRules)) =
     Some IsModerator"
    by (simp add: fixture_defs)
  have g: "getRules (snd (setRule userRoleRules (Function IsModerator) (Val ''Mod''))) =
     [(IsAdmin, Val ''Administrator''), (IsModerator, Val ''Mod''),
      (IsPowerUser, Val ''Power User'')]"
    by (simp add: fixture_defs)
  have d: "IsAdmin \<noteq> IsModerator" by simp
  from h f g d setRule_again_replaces_in_place [where R = userRoleRules and p = IsModerator
      and v' = "Val ''Mod''" and call = call_role, OF h]
  show ?thesis by blast
qed

section \<open>The cache\<close>

text \<open>
  C4. When the memoized \<open>applyRules\<close> throws, the cache afterwards has an inner map for
  the rule set and no entry in it for the serialized context; the conditions called are
  those of \<open>baseApplyRules\<close>, and the same call on the cache afterwards runs the
  evaluation again, calling them again.
\<close>

theorem failure_is_not_cached:
  assumes "applyRules call stringify heap cache args r = (Inl e, cache', called)"
  shows "(\<exists>inner. Map_get cache' r = Some inner \<and> Map_get inner (stringify args) = None) \<and>
         called = snd (baseApplyRules call args (heap r)) \<and>
         applyRules call stringify heap cache' args r = (Inl e, cache', called)"
proof -
  from applyRules_throws_uncached [OF assms] obtain inner where
    c: "Map_get cache' r = Some inner" and k: "Map_get inner (stringify args) = None"
    and b: "baseApplyRules call args (heap r) = (Inl e, called)"
    by blast
  from c have h: "Map_has cache' r" by (simp add: Map_has_get)
  have "applyRules call stringify heap cache' args r = (Inl e, cache', called)"
    using c k b h by (simp add: applyRules_unfold)
  with c k b show ?thesis by simp
qed

theorem failure_is_not_cached_witness:
  "applyRules call_x stringify_x (heap_of largeRules) [] 5 (0::nat) =
     (Inl (new_Error ''Rules set is missing a default and no conditions were met.''),
      [(0, [])], [GreaterThan10]) \<and>
   Map_get [(0::nat, [])] 0 = Some ([] :: (string, string jsval) Map) \<and>
   Map_get ([] :: (string, string jsval) Map) (stringify_x 5) = None \<and>
   applyRules call_x stringify_x (heap_of largeRules) [(0, [])] 5 (0::nat) =
     (Inl (new_Error ''Rules set is missing a default and no conditions were met.''),
      [(0, [])], [GreaterThan10])"
proof -
  have a: "applyRules call_x stringify_x (heap_of largeRules) [] 5 (0::nat) =
     (Inl (new_Error ''Rules set is missing a default and no conditions were met.''),
      [(0, [])], [GreaterThan10])"
    by (simp add: fixture_defs baseApplyRules_def applyRules_def)
  from a failure_is_not_cached [OF a]
  show ?thesis by simp
qed

text \<open>
  C5, as stated: of two calls with the same rule set and equal contexts only the first
  calls conditions. It fails when the first call throws: on the rule set
  \<open>setRule(x > 10, 'large')\<close> without default and the context \<open>x = 5\<close>, the second call
  calls the condition again.
\<close>

theorem failed_call_runs_again_counterexample:
  "snd (snd (applyRules call_x stringify_x (heap_of largeRules) [] 5 (0::nat))) =
     [GreaterThan10] \<and>
   snd (snd (applyRules call_x stringify_x (heap_of largeRules)
     (fst (snd (applyRules call_x stringify_x (heap_of largeRules) [] 5 (0::nat)))) 5 0)) =
     [GreaterThan10]"
  by (simp add: fixture_defs baseApplyRules_def applyRules_def)

text \<open>
  C5, amended. When a call of the memoized \<open>applyRules\<close> returns a value, a second call
  on the same rule set with a context of the same serialization returns that value from
  the cache, leaves the cache as it is and calls no condition.
\<close>

theorem second_call_is_cache_hit:
  assumes "applyRules call stringify heap cache c r = (Inr v, cache', called)"
    and "stringify c' = stringify c"
  shows "applyRules call stringify heap cache' c' r = (Inr v, cache', [])"
proof -
  from applyRules_returns_cached [OF assms(1)] obtain inner where
    "Map_get cache' r = Some inner" "Map_get inner (stringify c) = Some v"
    by blast
  with assms(2) show ?thesis by (simp add: applyRules_hit)
qed

theorem second_call_is_cache_hit_witness:
  "applyRules call_x stringify_x (heap_of positiveRules) [] 5 (0::nat) =
     (Inr (Val ''positive''), [(0, [(stringify_x 5, Val ''positive'')])], [Positive]) \<and>
   applyRules call_x stringify_x (heap_of positiveRules)
     [(0, [(stringify_x 5, Val ''positive'')])] 5 (0::nat) =
     (Inr (Val ''positive''), [(0, [(stringify_x 5, Val ''positive'')])], [])"
proof -
  have a: "applyRules call_x stringify_x (heap_of positiveRules) [] 5 (0::nat) =
     (Inr (Val ''positive''), [(0, [(stringify_x 5, Val ''positive'')])], [Positive])"
    by (simp add: fixture_defs baseApplyRules_def applyRules_def)
  have b: "stringify_x 5 = stringify_x 5" by (rule refl)
  from a second_call_is_cache_hit [OF a b]
  show ?thesis by (rule conjI)
qed

text \<open>
  C10. When a call of the memoized \<open>applyRules\<close> has returned a value, any later call
  on the same rule set with a context of the same serialization returns that value and
  calls no condition, whatever calls of \<open>setRule\<close>, \<open>setDefault\<close> and \<open>applyRules\<close>
  were made in between: the mutators change the object and never the cache, and
  \<open>applyRules\<close> never overwrites an entry.
\<close>

theorem cache_survives_mutation:
  assumes "applyRules call stringify heap cache c r = (Inr v, cache', called)"
    and "stringify c' = stringify c"
  shows "applyRules call stringify
           (fst (run call stringify (heap, cache') acts))
           (snd (run call stringify (heap, cache') acts)) c' r =
           (Inr v, snd (run call stringify (heap, cache') acts), [])"
proof -
  from assms(1) have "cached cache' r (stringify c) = Some v"
    by (rule applyRules_caches)
  then have "cached (snd (run call stringify (heap, cache') acts)) r (stringify c') = Some v"
    using assms(2) by (simp add: run_keeps_entry)
  then show ?thesis by (rule cached_hit)
qed

theorem cache_survives_mutation_witness:
  "applyRules call_x stringify_x (heap_of largeRules) [] 11 (0::nat) =
     (Inr (Val ''large''), [(0, [(stringify_x 11, Val ''large'')])], [GreaterThan10]) \<and>
   baseApplyRules call_x 11
     (fst (run call_x stringify_x (heap_of largeRules, [(0, [(stringify_x 11, Val ''large'')])])
        [Mutate 0 (SetRule (Function GreaterThan10) (Val ''huge'')),
         Mutate 0 (SetDefault (Val ''small'')), Apply 5 0]) 0) =
     (Inr (Val ''huge''), [GreaterThan10]) \<and>
   fst (applyRules call_x stringify_x
     (fst (run call_x stringify_x (heap_of largeRules, [(0, [(stringify_x 11, Val ''large'')])])
        [Mutate 0 (SetRule (Function GreaterThan10) (Val ''huge'')),
         Mutate 0 (SetDefault (Val ''small'')), Apply 5 0]))
     (snd (run call_x stringify_x (heap_of largeRules, [(0, [(stringify_x 11, Val ''large'')])])
        [Mutate 0 (SetRule (Function GreaterThan10) (Val ''huge'')),
         Mutate 0 (SetDefault (Val ''small'')), Apply 5 0]))
     11 (0::nat)) = Inr (Val ''large'') \<and>
   snd (snd (applyRules call_x stringify_x
     (fst (run call_x stringify_x (heap_of largeRules, [(0, [(stringify_x 11, Val ''large'')])])
        [Mutate 0 (SetRule (Function GreaterThan10) (Val ''huge'')),
         Mutate 0 (SetDefault (Val ''small'')), Apply 5 0]))
     (snd (run call_x stringify_x (heap_of largeRules, [(0, [(stringify_x 11, Val ''large'')])])
        [Mutate 0 (SetRule (Function GreaterThan10) (Val ''huge'')),
         Mutate 0 (SetDefault (Val ''small'')), Apply 5 0]))
     11 (0::nat))) = []"
proof -
  have a: "applyRules call_x stringify_x (heap_of largeRules) [] 11 (0::nat) =
     (Inr (Val ''large''), [(0, [(stringify_x 11, Val ''large'')])], [GreaterThan10])"
    by (simp add: fixture_defs baseApplyRules_def applyRules_def)
  have b: "stringify_x 11 = stringify_x 11" by (rule refl)
  have c: "baseApplyRules call_x 11
     (fst (run call_x stringify_x (heap_of largeRules, [(0, [(stringify_x 11, Val ''large'')])])
        [Mutate 0 (SetRule (Function GreaterThan10) (Val ''huge'')),
         Mutate 0 (SetDefault (Val ''small'')), Apply 5 0]) 0) =
     (Inr (Val ''huge''), [GreaterThan10])"
    by (simp add: fixture_defs baseApplyRules_def)
  from a c cache_survives_mutation [OF a b, where acts =
      "[Mutate 0 (SetRule (Function GreaterThan10) (Val ''huge'')),
        Mutate 0 (SetDefault (Val ''small'')), Apply 5 0]"]
  show ?thesis by simp
qed

end
